theory Spec2Isabelle
  imports Main
begin

section \<open>Layout constants of the fact-display variant (testing.cc, lines 393-404)\<close>

definition MATRIX_WIDTH :: int where "MATRIX_WIDTH = 64"
definition MATRIX_HEIGHT :: int where "MATRIX_HEIGHT = 32"
definition LEFT_IMAGE_X :: int where "LEFT_IMAGE_X = 0"
definition RIGHT_IMAGE_X :: int where "RIGHT_IMAGE_X = 46"
definition IMAGE_HEIGHT :: int where "IMAGE_HEIGHT = 21"
definition IMAGE_Y :: int where "IMAGE_Y = 1"

section \<open>The daily fact: cache, network fetch, retry\<close>

text \<open>
  Everything \<open>FetchOrLoadFactOfTheDay\<close> touches outside the program is made explicit.
  The cache directory is a map from path to file content (\<open>None\<close>: the file cannot be
  opened for reading). Two counters record what the code did: \<open>fetch_calls\<close> counts the
  calls of \<open>FetchOrLoadFactOfTheDay\<close>, \<open>net_calls\<close> counts the executions of
  \<open>curl_easy_perform\<close>.
\<close>

record world =
  files :: "string \<Rightarrow> string option"
  fetch_calls :: nat
  net_calls :: nat

text \<open>
  What the libraries answer during one call: the outcome of the HTTP request and of the
  JSON parsing, in the order the code tests them.
\<close>

datatype api_outcome =
    CurlInitFailed          \<comment> \<open>\<open>curl_easy_init\<close> returned null\<close>
  | CurlError               \<comment> \<open>\<open>curl_easy_perform\<close> did not return \<open>CURLE_OK\<close>\<close>
  | JsonParseError          \<comment> \<open>\<open>Json::parseFromStream\<close> returned false\<close>
  | JsonThrows              \<comment> \<open>jsoncpp raised \<open>Json::LogicError\<close> (root not an object, text not convertible)\<close>
  | TextMissing             \<comment> \<open>the root has no member \<open>text\<close>\<close>
  | TextField string        \<comment> \<open>\<open>root["text"].asString()\<close>\<close>

text \<open>
  The environment of one call: the local date the clock gives, whether
  \<open>create_directories\<close> succeeds (it throws otherwise), the network outcome, and whether
  the cache file can be opened for writing. The environment of the \<open>k\<close>-th call of the
  run is \<open>env k\<close>.
\<close>

record attempt_env =
  today :: string
  mkdir_ok :: bool
  api :: api_outcome
  write_ok :: bool

datatype exn = FilesystemError | JsonLogicError

definition cache_dir :: string where
  "cache_dir = ''/tmp/cats-cache''"

definition fact_prefix :: string where
  "fact_prefix = ''Today's fact:''"

definition retry_sentinel :: string where
  "retry_sentinel = ''Could not fetch fact after retries''"

text \<open>\<open>s.rfind(p, 0) == 0\<close>: the string \<open>s\<close> begins with \<open>p\<close>.\<close>

definition starts_with :: "string \<Rightarrow> string \<Rightarrow> bool" where
  "starts_with p s = (take (length p) s = p)"

text \<open>Lines 434-442: the cached text, unless the file is missing or empty.\<close>

definition LoadFromCache :: "world \<Rightarrow> string \<Rightarrow> string option" where
  "LoadFromCache w cache_path =
     (case files w cache_path of
        None \<Rightarrow> None
      | Some cached_fact \<Rightarrow> if cached_fact \<noteq> [] then Some cached_fact else None)"

text \<open>Lines 513-518: the file is written only when the output stream opened.\<close>

definition SaveToCache :: "bool \<Rightarrow> string \<Rightarrow> string \<Rightarrow> world \<Rightarrow> world" where
  "SaveToCache outfile_good cache_path fact_text w =
     (if outfile_good then w\<lparr>files := (files w)(cache_path \<mapsto> fact_text)\<rparr> else w)"

text \<open>
  Lines 496-499: \<open>while ((pos = s.find("  ", pos)) != npos) s.replace(pos, 2, " ")\<close>.
  The search restarts at the position of the replacement, so a run of spaces shrinks to
  one space.
\<close>

fun collapse_spaces :: "string \<Rightarrow> string" where
  "collapse_spaces (a # b # rest) =
     (if a = CHR '' '' \<and> b = CHR '' '' then collapse_spaces (b # rest)
      else a # collapse_spaces (b # rest))"
| "collapse_spaces s = s"

text \<open>Lines 492-510: the clean-up of the text field and the prefix.\<close>

definition clean_fact_text :: "string \<Rightarrow> string" where
  "clean_fact_text raw =
     (let s1 = map (\<lambda>c. if c = CHR 0x0A \<or> c = CHR 0x0D then CHR '' '' else c) raw;
          s2 = collapse_spaces s1;
          s3 = dropWhile (\<lambda>c. c = CHR '' '') s2;
          s4 = rev (dropWhile (\<lambda>c. c = CHR '' '') (rev s3));
          s5 = (if length s4 > 150 then take 147 s4 @ ''...'' else s4)
      in ''Today's fact: '' @ s5)"

text \<open>Lines 445-520: the network path, taken on a cache miss.\<close>

definition FetchFromApi :: "attempt_env \<Rightarrow> string \<Rightarrow> world \<Rightarrow> (exn + string) \<times> world" where
  "FetchFromApi e cache_path w =
     (case api e of
        CurlInitFailed \<Rightarrow> (Inr ''Could not fetch fact'', w)
      | CurlError \<Rightarrow> (Inr ''Could not fetch today's fact'', w\<lparr>net_calls := net_calls w + 1\<rparr>)
      | JsonParseError \<Rightarrow> (Inr ''Error parsing today's fact'', w\<lparr>net_calls := net_calls w + 1\<rparr>)
      | JsonThrows \<Rightarrow> (Inl JsonLogicError, w\<lparr>net_calls := net_calls w + 1\<rparr>)
      | TextMissing \<Rightarrow>
          (Inr ''Today's fact not found in response'', w\<lparr>net_calls := net_calls w + 1\<rparr>)
      | TextField raw \<Rightarrow>
          (let fact_text = clean_fact_text raw
           in (Inr fact_text,
               SaveToCache (write_ok e) cache_path fact_text
                 (w\<lparr>net_calls := net_calls w + 1\<rparr>))))"

text \<open>Lines 427-521. An exception of \<open>create_directories\<close> leaves before the cache is read.\<close>

definition FetchOrLoadFactOfTheDay :: "(nat \<Rightarrow> attempt_env) \<Rightarrow> world \<Rightarrow> (exn + string) \<times> world" where
  "FetchOrLoadFactOfTheDay env w =
     (let e = env (fetch_calls w);
          w1 = w\<lparr>fetch_calls := fetch_calls w + 1\<rparr>;
          cache_path = cache_dir @ ''/'' @ today e @ ''.txt''
      in if \<not> mkdir_ok e then (Inl FilesystemError, w1)
         else (case LoadFromCache w1 cache_path of
                 Some cached_fact \<Rightarrow> (Inr cached_fact, w1)
               | None \<Rightarrow> FetchFromApi e cache_path w1))"

text \<open>
  Lines 523-535. The loop variable \<open>attempt\<close> runs from 1 to \<open>max_retries\<close>; an
  exception of the fetch leaves the function. The pause of \<open>wait_seconds\<close> between two
  attempts changes nothing the model records.
\<close>

function retry_from :: "(nat \<Rightarrow> attempt_env) \<Rightarrow> int \<Rightarrow> int \<Rightarrow> world \<Rightarrow> (exn + string) \<times> world" where
  "retry_from env max_retries attempt w =
     (if attempt \<le> max_retries then
        (case FetchOrLoadFactOfTheDay env w of
           (Inl ex, w') \<Rightarrow> (Inl ex, w')
         | (Inr fact_text, w') \<Rightarrow>
             if starts_with fact_prefix fact_text then (Inr fact_text, w')
             else retry_from env max_retries (attempt + 1) w')
      else (Inr retry_sentinel, w))"
  by pat_completeness auto
termination
  by (relation "measure (\<lambda>(env, max_retries, attempt, w). nat (max_retries + 1 - attempt))") auto

definition FetchFactWithRetry :: "(nat \<Rightarrow> attempt_env) \<Rightarrow> int \<Rightarrow> int \<Rightarrow> world \<Rightarrow> (exn + string) \<times> world" where
  "FetchFactWithRetry env max_retries wait_seconds w = retry_from env max_retries 1 w"

text \<open>
  Lines 538-574. The thread owns \<open>last_date\<close>; \<open>current_fact\<close> is the global string
  shared with the render loop. One iteration of the loop receives the date its own
  clock read returns. A caught exception skips the assignment of \<open>last_date\<close>.
\<close>

record thread_state =
  last_date :: string
  current_fact :: string
  wld :: world

definition FactUpdateThread_iteration ::
  "(nat \<Rightarrow> attempt_env) \<Rightarrow> string \<Rightarrow> thread_state \<Rightarrow> thread_state" where
  "FactUpdateThread_iteration env current_date s =
     (if current_date \<noteq> last_date s then
        (case FetchFactWithRetry env 6 10 (wld s) of
           (Inl ex, w') \<Rightarrow> s\<lparr>wld := w'\<rparr>
         | (Inr new_fact, w') \<Rightarrow>
             if new_fact \<noteq> [] \<and> new_fact \<noteq> ''Could not fetch today's fact''
                \<and> new_fact \<noteq> ''Error parsing today's fact''
                \<and> new_fact \<noteq> ''Today's fact not found in response''
             then s\<lparr>last_date := current_date, current_fact := new_fact, wld := w'\<rparr>
             else s\<lparr>last_date := current_date, wld := w'\<rparr>)
      else s)"

text \<open>The loop of the thread, over the dates read at its successive wake-ups.\<close>

definition FactUpdateThread ::
  "(nat \<Rightarrow> attempt_env) \<Rightarrow> string list \<Rightarrow> thread_state \<Rightarrow> thread_state" where
  "FactUpdateThread env dates s = foldl (\<lambda>s d. FactUpdateThread_iteration env d s) s dates"

section \<open>Images and the canvas\<close>

text \<open>
  An image of the decoding library, as far as the program reads it: its size, the colour
  of each pixel in quantum units, and the animation delay in 1/100 s, as the \<open>int\<close> the
  program stores it in.
\<close>

record magick_color =
  alphaQuantum :: nat
  redQuantum :: nat
  greenQuantum :: nat
  blueQuantum :: nat

record image =
  rows :: nat
  columns :: nat
  pixelColor :: "nat \<Rightarrow> nat \<Rightarrow> magick_color"
  animationDelay :: int

text \<open>
  The canvas of the pixel sink: a colour for each coordinate. \<open>SetPixel\<close> belongs to
  the matrix library; the model stores the colour at the coordinate it is given, also at a
  coordinate the panel does not show.
\<close>

type_synonym rgb = "nat \<times> nat \<times> nat"
type_synonym canvas = "int \<times> int \<Rightarrow> rgb"

definition SetPixel :: "canvas \<Rightarrow> int \<Rightarrow> int \<Rightarrow> rgb \<Rightarrow> canvas" where
  "SetPixel cv x y colour = cv((x, y) := colour)"

text \<open>
  The loop indices of \<open>CopyImageToCanvas\<close> are \<open>size_t\<close> (64 bits, unsigned) and the
  offsets are \<open>int\<close>: in \<open>y + offset_y\<close> the offset is converted to \<open>size_t\<close> and the sum
  wraps; the coordinate handed to \<open>SetPixel\<close> is converted back to a 32-bit \<open>int\<close>.
\<close>

definition size_t_of_int :: "int \<Rightarrow> nat" where
  "size_t_of_int i = nat (i mod 2 ^ 64)"

definition size_t_add :: "nat \<Rightarrow> nat \<Rightarrow> nat" where
  "size_t_add a b = (a + b) mod 2 ^ 64"

definition int_of_size_t :: "nat \<Rightarrow> int" where
  "int_of_size_t n = (let m = int (n mod 2 ^ 32) in if m < 2 ^ 31 then m else m - 2 ^ 32)"

text \<open>Lines 623-631, the inner loop over the columns of row \<open>y\<close>.\<close>

definition copy_row :: "(nat \<Rightarrow> nat) \<Rightarrow> image \<Rightarrow> int \<Rightarrow> int \<Rightarrow> canvas \<Rightarrow> nat \<Rightarrow> canvas" where
  "copy_row ScaleQuantumToChar img offset_x offset_y cv y =
     foldl (\<lambda>cv x.
              (let c = pixelColor img x y
               in if alphaQuantum c < 256
                  then SetPixel cv (int_of_size_t (size_t_add x (size_t_of_int offset_x)))
                         (int_of_size_t (size_t_add y (size_t_of_int offset_y)))
                         (ScaleQuantumToChar (redQuantum c),
                          ScaleQuantumToChar (greenQuantum c),
                          ScaleQuantumToChar (blueQuantum c))
                  else cv))
       cv [0..<columns img]"

text \<open>
  Lines 619-633. The outer loop runs while \<open>y < image.rows()\<close> and
  \<open>y + offset_y < IMAGE_HEIGHT + IMAGE_Y\<close> and stops at the first \<open>y\<close> that fails.
  \<open>ScaleQuantumToChar\<close> is a macro of the image library and is a parameter here.
\<close>

definition CopyImageToCanvas ::
  "(nat \<Rightarrow> nat) \<Rightarrow> image \<Rightarrow> canvas \<Rightarrow> int \<Rightarrow> int \<Rightarrow> canvas" where
  "CopyImageToCanvas ScaleQuantumToChar img cv offset_x offset_y =
     foldl (copy_row ScaleQuantumToChar img offset_x offset_y) cv
       (takeWhile (\<lambda>y. size_t_add y (size_t_of_int offset_y)
                          < size_t_of_int (IMAGE_HEIGHT + IMAGE_Y))
          [0..<rows img])"

section \<open>The render loops of the fact-display variant\<close>

text \<open>Lines 636-645, on the hour and minute of the local time.\<close>

definition IsDimHoursEST :: "int \<Rightarrow> int \<Rightarrow> bool" where
  "IsDimHoursEST hour mins = ((hour = 23 \<and> mins \<ge> 30) \<or> hour < 8)"

text \<open>Lines 690-696; \<open>CharacterWidth\<close> is the font's table of glyph widths.\<close>

definition GetStringWidth :: "(char \<Rightarrow> int) \<Rightarrow> string \<Rightarrow> int" where
  "GetStringWidth CharacterWidth text = foldl (\<lambda>width c. width + CharacterWidth c) 0 text"

text \<open>
  The local variables of the two render loops. \<open>frame\<close> and \<open>last_scroll_offset\<close>
  exist in the animated loop only.
\<close>

record render_state =
  frame :: nat
  scroll_offset :: int
  last_fact_text :: string
  fact_width :: int
  last_brightness_check :: int
  last_brightness :: int
  last_time_str :: string
  last_scroll_offset :: int

definition initial_render_state :: render_state where
  "initial_render_state =
     \<lparr>frame = 0, scroll_offset = MATRIX_WIDTH, last_fact_text = [], fact_width = 0,
      last_brightness_check = 0, last_brightness = - 1, last_time_str = [],
      last_scroll_offset = - 1\<rparr>"

text \<open>
  What one iteration reads from outside: the clock (\<open>time(nullptr)\<close>), the hour and
  minute \<open>IsDimHoursEST\<close> reads, the formatted time, and the shared fact text.
\<close>

record tick =
  now :: int
  dim_hour :: int
  dim_min :: int
  time_str :: string
  shared_fact :: string

text \<open>The calls an iteration makes on the pixel sink and the final pause, in order.\<close>

datatype sink_call =
    SetBrightness int
  | Clear
  | CopyLeftFrame nat       \<comment> \<open>\<open>CopyImageToCanvas\<close> of the left frame with this index\<close>
  | CopyRightFrame nat
  | DrawClock
  | BlankTickerRows         \<comment> \<open>lines 754-758\<close>
  | DrawFactText string int
  | SwapOnVSync
  | usleep int

text \<open>
  Lines 716-723 and 800-807: the brightness check, with the re-check interval of the
  loop. The result is the value given to \<open>SetBrightness\<close>, if it is called.
\<close>

definition brightness_check :: "int \<Rightarrow> tick \<Rightarrow> render_state \<Rightarrow> int option \<times> render_state" where
  "brightness_check interval t s =
     (if now t - last_brightness_check s \<ge> interval then
        (let brightness = (if IsDimHoursEST (dim_hour t) (dim_min t) then 10 else 100)
         in if brightness \<noteq> last_brightness s
            then (Some brightness,
                  s\<lparr>last_brightness := brightness, last_brightness_check := now t\<rparr>)
            else (None, s\<lparr>last_brightness_check := now t\<rparr>))
      else (None, s))"

text \<open>Lines 735-739 and 822-826: a changed fact text restarts the scroll.\<close>

definition observe_fact :: "(char \<Rightarrow> int) \<Rightarrow> string \<Rightarrow> render_state \<Rightarrow> render_state" where
  "observe_fact fact_font current_fact_text s =
     (if current_fact_text \<noteq> last_fact_text s
      then s\<lparr>last_fact_text := current_fact_text,
             fact_width := GetStringWidth fact_font current_fact_text,
             scroll_offset := MATRIX_WIDTH\<rparr>
      else s)"

text \<open>Lines 767-770 and 846-849.\<close>

definition advance_scroll :: "render_state \<Rightarrow> render_state" where
  "advance_scroll s =
     (let off = scroll_offset s - 1
      in s\<lparr>scroll_offset := (if off < - fact_width s then MATRIX_WIDTH else off)\<rparr>)"

text \<open>C++ division of \<open>int\<close>: the quotient is truncated towards zero.\<close>

definition c_div :: "int \<Rightarrow> int \<Rightarrow> int" where
  "c_div a b = sgn a * sgn b * (\<bar>a\<bar> div \<bar>b\<bar>)"

text \<open>Lines 852-860: the pause after the frame, in 1/100 s.\<close>

definition frame_delay :: "image list \<Rightarrow> image list \<Rightarrow> nat \<Rightarrow> int" where
  "frame_delay left_images right_images frm =
     (let delay0 = (if frm < length left_images then animationDelay (left_images ! frm) else 0);
          delay1 = (if frm < length right_images then
                      (let right_delay = animationDelay (right_images ! frm)
                       in if delay0 > 0 then c_div (delay0 + right_delay) 2 else right_delay)
                    else delay0)
      in if delay1 \<le> 0 then 10 else delay1)"

text \<open>
  Lines 794-795: \<open>for (frame = 0; frame < max_frames; ++frame)\<close> inside
  \<open>while (!interrupt_received)\<close>. When the inner loop ends the outer loop starts it
  again at 0.
\<close>

definition next_frame :: "nat \<Rightarrow> nat \<Rightarrow> nat" where
  "next_frame max_frames frm = (if frm + 1 < max_frames then frm + 1 else 0)"

text \<open>
  \<open>usleep(delay * 10000)\<close>: the product is computed in 32-bit \<open>int\<close> and converted to
  the 32-bit unsigned parameter of \<open>usleep\<close>. With the overflow of the product taken as
  wrap-around, the value passed is the product modulo \<open>2 ^ 32\<close>.
\<close>

definition usleep_arg :: "int \<Rightarrow> int" where
  "usleep_arg delay = (delay * 10000) mod 2 ^ 32"

text \<open>
  Lines 829-831: the animated loop draws only if something changed. The condition is
  evaluated on the state after the fact text was observed.
\<close>

definition needs_redraw :: "tick \<Rightarrow> render_state \<Rightarrow> bool" where
  "needs_redraw t s =
     (time_str t \<noteq> last_time_str s \<or> shared_fact t \<noteq> last_fact_text s
      \<or> scroll_offset s \<noteq> last_scroll_offset s)"

text \<open>Lines 712-773: one iteration of the loop over two static images.\<close>

definition static_iteration ::
  "(char \<Rightarrow> int) \<Rightarrow> tick \<Rightarrow> render_state \<Rightarrow> sink_call list \<times> render_state" where
  "static_iteration fact_font t s =
     (let (b, s1) = brightness_check 1800 t s;
          s2 = observe_fact fact_font (shared_fact t) s1;
          time_changed = (time_str t \<noteq> last_time_str s2);
          s3 = (if time_changed then s2\<lparr>last_time_str := time_str t\<rparr> else s2)
      in ((case b of Some v \<Rightarrow> [SetBrightness v] | None \<Rightarrow> [])
          @ (if time_changed then [Clear] else [])
          @ [CopyLeftFrame 0, CopyRightFrame 0, DrawClock, BlankTickerRows,
             DrawFactText (shared_fact t) (scroll_offset s3), SwapOnVSync, usleep 8000],
          advance_scroll s3))"

text \<open>Lines 796-863: one iteration of the loop over two animations.\<close>

definition animated_iteration ::
  "image list \<Rightarrow> image list \<Rightarrow> (char \<Rightarrow> int) \<Rightarrow> tick \<Rightarrow> render_state
     \<Rightarrow> sink_call list \<times> render_state" where
  "animated_iteration left_images right_images fact_font t s =
     (let max_frames = max (length left_images) (length right_images);
          (b, s1) = brightness_check 60 t s;
          s2 = observe_fact fact_font (shared_fact t) s1;
          redraw = needs_redraw t s2;
          s3 = (if redraw
                then s2\<lparr>last_time_str := time_str t, last_scroll_offset := scroll_offset s2\<rparr>
                else s2);
          s4 = advance_scroll s3;
          delay = frame_delay left_images right_images (frame s)
      in ((case b of Some v \<Rightarrow> [SetBrightness v] | None \<Rightarrow> [])
          @ (if redraw
             then [Clear, CopyLeftFrame (frame s mod length left_images),
                   CopyRightFrame (frame s mod length right_images), DrawClock,
                   DrawFactText (shared_fact t) (scroll_offset s2), SwapOnVSync]
             else [])
          @ [usleep (usleep_arg delay)],
          s4\<lparr>frame := next_frame max_frames (frame s)\<rparr>))"

text \<open>
  A run of a render loop: one iteration for each tick read before the interrupt. The
  result is the list of the calls of each iteration and the final state.
\<close>

fun render_run ::
  "(tick \<Rightarrow> render_state \<Rightarrow> sink_call list \<times> render_state) \<Rightarrow> render_state \<Rightarrow> tick list
     \<Rightarrow> sink_call list list \<times> render_state" where
  "render_run iteration s [] = ([], s)"
| "render_run iteration s (t # ts) =
     (let (calls, s') = iteration t s;
          (log, s'') = render_run iteration s' ts
      in (calls # log, s''))"

definition ShowDualStaticImagesWithClock ::
  "(char \<Rightarrow> int) \<Rightarrow> tick list \<Rightarrow> sink_call list list \<times> render_state" where
  "ShowDualStaticImagesWithClock fact_font ticks =
     render_run (static_iteration fact_font) initial_render_state ticks"





text \<open>The values given to \<open>SetBrightness\<close> among the calls of one iteration.\<close>

fun brightness_of :: "sink_call list \<Rightarrow> int list" where
  "brightness_of [] = []"
| "brightness_of (SetBrightness b # cs) = b # brightness_of cs"
| "brightness_of (c # cs) = brightness_of cs"

text \<open>
  The \<open>SetBrightness\<close> calls of a run, each with the clock value of its iteration.
\<close>

fun brightness_log :: "tick list \<Rightarrow> sink_call list list \<Rightarrow> (int \<times> int) list" where
  "brightness_log (t # ts) (cs # log) = map (\<lambda>b. (now t, b)) (brightness_of cs) @ brightness_log ts log"
| "brightness_log ts log = []"

section \<open>Font loading at startup\<close>









section \<open>Notions used to state the properties\<close>

text \<open>
  The world after \<open>k\<close> successive calls of \<open>FetchOrLoadFactOfTheDay\<close> starting in
  \<open>w\<close>, and the result of the next call (call number \<open>k\<close>, counted from 0).
\<close>

definition world_after :: "(nat \<Rightarrow> attempt_env) \<Rightarrow> world \<Rightarrow> nat \<Rightarrow> world" where
  "world_after env w k = ((\<lambda>w. snd (FetchOrLoadFactOfTheDay env w)) ^^ k) w"

definition attempt_result :: "(nat \<Rightarrow> attempt_env) \<Rightarrow> world \<Rightarrow> nat \<Rightarrow> exn + string" where
  "attempt_result env w k = fst (FetchOrLoadFactOfTheDay env (world_after env w k))"

text \<open>The attempt returns a text that does not begin with the success prefix.\<close>

definition attempt_fails :: "(nat \<Rightarrow> attempt_env) \<Rightarrow> world \<Rightarrow> nat \<Rightarrow> bool" where
  "attempt_fails env w k =
     (case attempt_result env w k of
        Inl ex \<Rightarrow> False
      | Inr fact_text \<Rightarrow> \<not> starts_with fact_prefix fact_text)"

text \<open>
  An iteration of a render loop whose brightness part is \<open>brightness_check interval\<close>:
  the values it gives to \<open>SetBrightness\<close> and the two brightness variables it leaves are
  those of the check.
\<close>

definition applied :: "int option \<Rightarrow> int list" where
  "applied b = (case b of Some v \<Rightarrow> [v] | None \<Rightarrow> [])"

definition checks_brightness ::
  "int \<Rightarrow> (tick \<Rightarrow> render_state \<Rightarrow> sink_call list \<times> render_state) \<Rightarrow> bool" where
  "checks_brightness interval iteration \<longleftrightarrow>
     (\<forall>t s. brightness_of (fst (iteration t s)) = applied (fst (brightness_check interval t s))
          \<and> last_brightness (snd (iteration t s))
              = last_brightness (snd (brightness_check interval t s))
          \<and> last_brightness_check (snd (iteration t s))
              = last_brightness_check (snd (brightness_check interval t s)))"


section \<open>The retry loop\<close>


lemma world_after_0: "world_after env w 0 = w"
  by (simp add: world_after_def)

lemma world_after_Suc:
  "world_after env w (Suc k) = world_after env (snd (FetchOrLoadFactOfTheDay env w)) k"
  unfolding world_after_def by (simp only: funpow_Suc_right o_apply)


lemma attempt_fails_0:
  "attempt_fails env w 0 \<longleftrightarrow>
     (\<exists>t. fst (FetchOrLoadFactOfTheDay env w) = Inr t \<and> \<not> starts_with fact_prefix t)"
  by (simp add: attempt_fails_def attempt_result_def world_after_0 split: sum.split)

lemma attempt_fails_Suc:
  "attempt_fails env w (Suc k) = attempt_fails env (snd (FetchOrLoadFactOfTheDay env w)) k"
  by (simp add: attempt_fails_def attempt_result_def world_after_Suc)


lemma retry_from_all_fail:
  "j = nat (max_retries + 1 - attempt) \<Longrightarrow> \<forall>k<j. attempt_fails env w k \<Longrightarrow>
   retry_from env max_retries attempt w = (Inr retry_sentinel, world_after env w j)"
proof (induction j arbitrary: attempt w)
  case 0
  then have "\<not> attempt \<le> max_retries" by simp
  then show ?case by (simp add: world_after_0)
next
  case (Suc j)
  from Suc.prems(1) have le: "attempt \<le> max_retries" by simp
  from Suc.prems(1) have j: "j = nat (max_retries + 1 - (attempt + 1))" by simp
  from Suc.prems(2) have "attempt_fails env w 0" by blast
  then obtain t w' where F: "FetchOrLoadFactOfTheDay env w = (Inr t, w')"
    and t: "\<not> starts_with fact_prefix t"
    by (auto simp: attempt_fails_0 prod_eq_iff)
  have "\<forall>k<j. attempt_fails env w' k"
  proof (intro allI impI)
    fix k assume "k < j"
    then have "attempt_fails env w (Suc k)" using Suc.prems(2) by simp
    then show "attempt_fails env w' k" by (simp add: attempt_fails_Suc F)
  qed
  from Suc.IH[OF j this]
  have "retry_from env max_retries (attempt + 1) w' = (Inr retry_sentinel, world_after env w' j)" .
  then show ?case
    using le t by (subst retry_from.simps) (simp add: world_after_Suc F)
qed


lemma world_after_step:
  "world_after e w (Suc k) = snd (FetchOrLoadFactOfTheDay e (world_after e w k))"
  by (simp add: world_after_def)










section \<open>The refresh thread\<close>

lemma FetchFactWithRetry_six_failures:
  "\<forall>k<nat 6. attempt_fails env w k \<Longrightarrow>
   FetchFactWithRetry env 6 10 w = (Inr retry_sentinel, world_after env w (nat 6))"
  using retry_from_all_fail[of "nat 6" 6 1 env w] by (simp add: FetchFactWithRetry_def)

lemma sentinel_passes_guard:
  "retry_sentinel \<noteq> [] \<and> retry_sentinel \<noteq> ''Could not fetch today's fact''
   \<and> retry_sentinel \<noteq> ''Error parsing today's fact''
   \<and> retry_sentinel \<noteq> ''Today's fact not found in response''"
  by (simp add: retry_sentinel_def)

lemma iteration_after_six_failures:
  assumes "\<forall>k<nat 6. attempt_fails env (wld s) k" and "current_date \<noteq> last_date s"
  shows "FactUpdateThread_iteration env current_date s
           = s\<lparr>last_date := current_date, current_fact := retry_sentinel,
               wld := world_after env (wld s) (nat 6)\<rparr>"
  using assms(2) sentinel_passes_guard
  by (simp add: FactUpdateThread_iteration_def FetchFactWithRetry_six_failures[OF assms(1)])

lemma curl_error_fails:
  "attempt_fails (\<lambda>k. \<lparr>today = d, mkdir_ok = True, api = CurlError, write_ok = True\<rparr>)
     \<lparr>files = (\<lambda>p. None), fetch_calls = 0, net_calls = 0\<rparr> k"
proof -
  let ?e = "\<lambda>k::nat. \<lparr>today = d, mkdir_ok = True, api = CurlError, write_ok = True\<rparr>"
  have F: "FetchOrLoadFactOfTheDay ?e \<lparr>files = (\<lambda>p. None), fetch_calls = n, net_calls = m\<rparr>
           = (Inr ''Could not fetch today's fact'',
              \<lparr>files = (\<lambda>p. None), fetch_calls = n + 1, net_calls = m + 1\<rparr>)" for n m
    by (simp add: FetchOrLoadFactOfTheDay_def FetchFromApi_def LoadFromCache_def Let_def)
  have W: "world_after ?e \<lparr>files = (\<lambda>p. None), fetch_calls = 0, net_calls = 0\<rparr> k
           = \<lparr>files = (\<lambda>p. None), fetch_calls = k, net_calls = k\<rparr>" for k
    by (induction k) (simp_all add: world_after_0 world_after_step F)
  show ?thesis
    by (simp add: attempt_fails_def attempt_result_def W F starts_with_def fact_prefix_def)
qed

lemma curl_error_world:
  "world_after (\<lambda>k. \<lparr>today = d, mkdir_ok = True, api = CurlError, write_ok = True\<rparr>)
     \<lparr>files = (\<lambda>p. None), fetch_calls = 0, net_calls = 0\<rparr> k
   = \<lparr>files = (\<lambda>p. None), fetch_calls = k, net_calls = k\<rparr>"
proof (induction k)
  case 0
  show ?case by (simp add: world_after_0)
next
  case (Suc k)
  then show ?case
    by (simp add: world_after_step FetchOrLoadFactOfTheDay_def FetchFromApi_def
          LoadFromCache_def Let_def)
qed

text \<open>
  C1. The claim: when the retries are exhausted the thread leaves the published text as
  it was and never publishes an error or sentinel string. The guard of the thread
  compares the result with the three error strings of \<open>FetchOrLoadFactOfTheDay\<close>,
  which \<open>FetchFactWithRetry\<close> never returns, and not with the sentinel of
  \<open>FetchFactWithRetry\<close> itself. With a valid fact published, a new date and six
  attempts that end in a transport error, the iteration overwrites the published fact
  with the sentinel.
\<close>

theorem sentinel_published_after_retries:
  "FactUpdateThread_iteration
     (\<lambda>k. \<lparr>today = ''2024-01-02'', mkdir_ok = True, api = CurlError, write_ok = True\<rparr>)
     ''2024-01-02''
     \<lparr>last_date = ''2024-01-01'', current_fact = ''Today's fact: Cats sleep a lot'',
      wld = \<lparr>files = (\<lambda>p. None), fetch_calls = 0, net_calls = 0\<rparr>\<rparr>
   = \<lparr>last_date = ''2024-01-02'', current_fact = ''Could not fetch fact after retries'',
      wld = \<lparr>files = (\<lambda>p. None), fetch_calls = 6, net_calls = 6\<rparr>\<rparr>"
proof -
  let ?e = "\<lambda>k::nat. \<lparr>today = ''2024-01-02'', mkdir_ok = True, api = CurlError, write_ok = True\<rparr>"
  let ?s = "\<lparr>last_date = ''2024-01-01'', current_fact = ''Today's fact: Cats sleep a lot'',
      wld = \<lparr>files = (\<lambda>p. None), fetch_calls = 0, net_calls = 0\<rparr>\<rparr>"
  have f: "\<forall>k<nat 6. attempt_fails ?e (wld ?s) k"
    by (simp add: curl_error_fails)
  have d: "''2024-01-02'' \<noteq> last_date ?s" by simp
  show ?thesis
    unfolding iteration_after_six_failures[OF f d]
    by (simp add: curl_error_world retry_sentinel_def)
qed

lemma iteration_same_date:
  "last_date s = d \<Longrightarrow> FactUpdateThread_iteration env d s = s"
  by (simp add: FactUpdateThread_iteration_def)

lemma iteration_records_date:
  assumes "fst (FetchFactWithRetry env 6 10 (wld s)) = Inr r"
  shows "last_date (FactUpdateThread_iteration env d s) = d"
proof (cases "d = last_date s")
  case True
  then show ?thesis by (simp add: FactUpdateThread_iteration_def)
next
  case False
  from assms obtain w' where "FetchFactWithRetry env 6 10 (wld s) = (Inr r, w')"
    by (auto simp: prod_eq_iff)
  with False show ?thesis by (simp add: FactUpdateThread_iteration_def)
qed

lemma thread_same_date:
  "last_date s = d \<Longrightarrow> FactUpdateThread env (replicate k d) s = s"
  by (induction k) (simp_all add: FactUpdateThread_def iteration_same_date)

text \<open>
  C9. When the fetch sequence of an iteration returns (a fact or the sentinel, no
  exception), the date of the iteration is recorded in \<open>last_date\<close>, and any number of
  further iterations that read the same date leave the whole state as it is: no call of
  the fetch is made.
\<close>

theorem failed_day_not_retried:
  "fst (FetchFactWithRetry env 6 10 (wld s)) = Inr r \<Longrightarrow>
   last_date (FactUpdateThread_iteration env d s) = d
   \<and> FactUpdateThread env (replicate k d) (FactUpdateThread_iteration env d s)
       = FactUpdateThread_iteration env d s
   \<and> fetch_calls (wld (FactUpdateThread env (replicate k d) (FactUpdateThread_iteration env d s)))
       = fetch_calls (wld (FactUpdateThread_iteration env d s))"
proof -
  assume a: "fst (FetchFactWithRetry env 6 10 (wld s)) = Inr r"
  have l: "last_date (FactUpdateThread_iteration env d s) = d"
    using a by (rule iteration_records_date)
  have t: "FactUpdateThread env (replicate k d) (FactUpdateThread_iteration env d s)
       = FactUpdateThread_iteration env d s"
    using l by (rule thread_same_date)
  show ?thesis using l t by simp
qed

theorem failed_day_not_retried_witness:
  "fst (FetchFactWithRetry
         (\<lambda>k. \<lparr>today = ''2024-01-02'', mkdir_ok = True, api = CurlError, write_ok = True\<rparr>)
         6 10 \<lparr>files = (\<lambda>p. None), fetch_calls = 0, net_calls = 0\<rparr>)
     = Inr ''Could not fetch fact after retries''
   \<and> last_date (FactUpdateThread_iteration
         (\<lambda>k. \<lparr>today = ''2024-01-02'', mkdir_ok = True, api = CurlError, write_ok = True\<rparr>)
         ''2024-01-02''
         \<lparr>last_date = ''2024-01-01'', current_fact = ''Today's fact: Cats sleep a lot'',
          wld = \<lparr>files = (\<lambda>p. None), fetch_calls = 0, net_calls = 0\<rparr>\<rparr>) = ''2024-01-02''
   \<and> fetch_calls (wld (FactUpdateThread
         (\<lambda>k. \<lparr>today = ''2024-01-02'', mkdir_ok = True, api = CurlError, write_ok = True\<rparr>)
         (replicate 3 ''2024-01-02'')
         (FactUpdateThread_iteration
           (\<lambda>k. \<lparr>today = ''2024-01-02'', mkdir_ok = True, api = CurlError, write_ok = True\<rparr>)
           ''2024-01-02''
           \<lparr>last_date = ''2024-01-01'', current_fact = ''Today's fact: Cats sleep a lot'',
            wld = \<lparr>files = (\<lambda>p. None), fetch_calls = 0, net_calls = 0\<rparr>\<rparr>))) = 6"
proof -
  let ?e = "\<lambda>k::nat. \<lparr>today = ''2024-01-02'', mkdir_ok = True, api = CurlError, write_ok = True\<rparr>"
  let ?w = "\<lparr>files = (\<lambda>p. None), fetch_calls = 0, net_calls = 0\<rparr>"
  let ?s = "\<lparr>last_date = ''2024-01-01'', current_fact = ''Today's fact: Cats sleep a lot'',
      wld = ?w\<rparr>"
  have f: "\<forall>k<nat 6. attempt_fails ?e ?w k"
    by (simp add: curl_error_fails)
  have r: "fst (FetchFactWithRetry ?e 6 10 (wld ?s)) = Inr ''Could not fetch fact after retries''"
    by (simp add: FetchFactWithRetry_six_failures[OF f] retry_sentinel_def)
  have d: "''2024-01-02'' \<noteq> last_date ?s" by simp
  have f': "\<forall>k<nat 6. attempt_fails ?e (wld ?s) k"
    using f by simp
  have c: "fetch_calls (wld (FactUpdateThread_iteration ?e ''2024-01-02'' ?s)) = 6"
    unfolding iteration_after_six_failures[OF f' d] by (simp add: curl_error_world)
  from failed_day_not_retried[OF r, of "''2024-01-02''" 3] r c
  show ?thesis by simp
qed

section \<open>The cache\<close>

lemma cache_miss_falls_through:
  assumes "mkdir_ok (env (fetch_calls w))"
    and "files w (cache_dir @ ''/'' @ today (env (fetch_calls w)) @ ''.txt'') = None
         \<or> files w (cache_dir @ ''/'' @ today (env (fetch_calls w)) @ ''.txt'') = Some []"
  shows "FetchOrLoadFactOfTheDay env w
         = FetchFromApi (env (fetch_calls w))
             (cache_dir @ ''/'' @ today (env (fetch_calls w)) @ ''.txt'')
             (w\<lparr>fetch_calls := fetch_calls w + 1\<rparr>)"
  using assms by (auto simp: FetchOrLoadFactOfTheDay_def LoadFromCache_def Let_def)

lemma net_calls_FetchFromApi:
  "api e \<noteq> CurlInitFailed \<Longrightarrow> net_calls (snd (FetchFromApi e p w)) = net_calls w + 1"
  by (simp add: FetchFromApi_def SaveToCache_def Let_def split: api_outcome.split)

lemma cache_hit_returns_stored:
  assumes "mkdir_ok (env (fetch_calls w))"
    and "files w (cache_dir @ ''/'' @ today (env (fetch_calls w)) @ ''.txt'') = Some stored"
    and "stored \<noteq> []"
  shows "FetchOrLoadFactOfTheDay env w = (Inr stored, w\<lparr>fetch_calls := fetch_calls w + 1\<rparr>)"
  using assms by (simp add: FetchOrLoadFactOfTheDay_def LoadFromCache_def Let_def)

lemma SaveToCache_fields:
  "fetch_calls (SaveToCache g p t w) = fetch_calls w"
  "net_calls (SaveToCache g p t w) = net_calls w"
  "files (SaveToCache True p t w) p = Some t"
  by (simp_all add: SaveToCache_def)

text \<open>
  C6. With the cache directory in place: a date whose cache file is missing or empty is
  a miss, and the call continues with the network path (one request, unless curl cannot
  be initialised); once a non-empty text is stored under the date's path, the call
  returns exactly that text and makes no request.
\<close>

theorem cache_round_trip:
  "mkdir_ok (env (fetch_calls w)) \<Longrightarrow>
   cache_path = cache_dir @ ''/'' @ today (env (fetch_calls w)) @ ''.txt'' \<Longrightarrow>
   ((files w cache_path = None \<or> files w cache_path = Some []) \<longrightarrow>
      FetchOrLoadFactOfTheDay env w
        = FetchFromApi (env (fetch_calls w)) cache_path (w\<lparr>fetch_calls := fetch_calls w + 1\<rparr>)
      \<and> (api (env (fetch_calls w)) \<noteq> CurlInitFailed \<longrightarrow>
           net_calls (snd (FetchOrLoadFactOfTheDay env w)) = net_calls w + 1))
   \<and> (stored \<noteq> [] \<longrightarrow>
        FetchOrLoadFactOfTheDay env (SaveToCache True cache_path stored w)
          = (Inr stored, (SaveToCache True cache_path stored w)\<lparr>fetch_calls := fetch_calls w + 1\<rparr>)
        \<and> net_calls (snd (FetchOrLoadFactOfTheDay env (SaveToCache True cache_path stored w)))
            = net_calls w)"
proof (intro conjI impI)
  assume m: "mkdir_ok (env (fetch_calls w))"
    and p: "cache_path = cache_dir @ ''/'' @ today (env (fetch_calls w)) @ ''.txt''"
  {
    assume miss: "files w cache_path = None \<or> files w cache_path = Some []"
    show F: "FetchOrLoadFactOfTheDay env w
        = FetchFromApi (env (fetch_calls w)) cache_path (w\<lparr>fetch_calls := fetch_calls w + 1\<rparr>)"
      using cache_miss_falls_through[of env w] m miss unfolding p by blast
    assume "api (env (fetch_calls w)) \<noteq> CurlInitFailed"
    then show "net_calls (snd (FetchOrLoadFactOfTheDay env w)) = net_calls w + 1"
      unfolding F by (simp add: net_calls_FetchFromApi)
  }
  {
    assume t: "stored \<noteq> []"
    let ?w' = "SaveToCache True cache_path stored w"
    have m': "mkdir_ok (env (fetch_calls ?w'))" using m by (simp add: SaveToCache_fields)
    have f': "files ?w' (cache_dir @ ''/'' @ today (env (fetch_calls ?w')) @ ''.txt'') = Some stored"
      by (simp add: SaveToCache_fields p)
    have "FetchOrLoadFactOfTheDay env ?w' = (Inr stored, ?w'\<lparr>fetch_calls := fetch_calls ?w' + 1\<rparr>)"
      using m' f' t by (rule cache_hit_returns_stored)
    then show H: "FetchOrLoadFactOfTheDay env ?w' = (Inr stored, ?w'\<lparr>fetch_calls := fetch_calls w + 1\<rparr>)"
      by (simp add: SaveToCache_fields)
    show "net_calls (snd (FetchOrLoadFactOfTheDay env ?w')) = net_calls w"
      unfolding H by (simp add: SaveToCache_fields)
  }
qed

theorem cache_round_trip_witness:
  "FetchOrLoadFactOfTheDay
     (\<lambda>k. \<lparr>today = ''2024-01-02'', mkdir_ok = True, api = TextField ''Cats  sleep a lot '',
            write_ok = True\<rparr>)
     \<lparr>files = (\<lambda>p. None), fetch_calls = 0, net_calls = 0\<rparr>
   = (Inr ''Today's fact: Cats sleep a lot'',
      \<lparr>files = (\<lambda>p. None)(''/tmp/cats-cache/2024-01-02.txt'' \<mapsto> ''Today's fact: Cats sleep a lot''),
       fetch_calls = 1, net_calls = 1\<rparr>)
   \<and> FetchOrLoadFactOfTheDay
     (\<lambda>k. \<lparr>today = ''2024-01-02'', mkdir_ok = True, api = TextField ''Cats  sleep a lot '',
            write_ok = True\<rparr>)
     \<lparr>files = (\<lambda>p. None)(''/tmp/cats-cache/2024-01-02.txt'' \<mapsto> ''Today's fact: Cats sleep a lot''),
      fetch_calls = 0, net_calls = 0\<rparr>
   = (Inr ''Today's fact: Cats sleep a lot'',
      \<lparr>files = (\<lambda>p. None)(''/tmp/cats-cache/2024-01-02.txt'' \<mapsto> ''Today's fact: Cats sleep a lot''),
       fetch_calls = 1, net_calls = 0\<rparr>)"
proof -
  let ?e = "\<lambda>k::nat. \<lparr>today = ''2024-01-02'', mkdir_ok = True,
              api = TextField ''Cats  sleep a lot '', write_ok = True\<rparr>"
  let ?w = "\<lparr>files = (\<lambda>p. None), fetch_calls = 0, net_calls = 0\<rparr>"
  let ?p = "''/tmp/cats-cache/2024-01-02.txt''"
  let ?t = "''Today's fact: Cats sleep a lot''"
  have m: "mkdir_ok (?e (fetch_calls ?w))" by simp
  have p: "?p = cache_dir @ ''/'' @ today (?e (fetch_calls ?w)) @ ''.txt''"
    by (simp add: cache_dir_def)
  have miss: "files ?w ?p = None \<or> files ?w ?p = Some []" by simp
  have t: "?t \<noteq> []" by simp
  note rt = cache_round_trip[where stored = ?t, OF m p]
  have A: "FetchOrLoadFactOfTheDay ?e ?w
             = FetchFromApi (?e (fetch_calls ?w)) ?p (?w\<lparr>fetch_calls := fetch_calls ?w + 1\<rparr>)"
    using rt miss by blast
  have B: "FetchOrLoadFactOfTheDay ?e (SaveToCache True ?p ?t ?w)
             = (Inr ?t, (SaveToCache True ?p ?t ?w)\<lparr>fetch_calls := fetch_calls ?w + 1\<rparr>)"
    using rt t by blast
  have A': "FetchFromApi (?e (fetch_calls ?w)) ?p (?w\<lparr>fetch_calls := fetch_calls ?w + 1\<rparr>)
            = (Inr ?t, \<lparr>files = (\<lambda>p. None)(?p \<mapsto> ?t), fetch_calls = 1, net_calls = 1\<rparr>)"
    by (simp add: FetchFromApi_def SaveToCache_def clean_fact_text_def Let_def)
  have S: "SaveToCache True ?p ?t ?w
            = \<lparr>files = (\<lambda>p. None)(?p \<mapsto> ?t), fetch_calls = 0, net_calls = 0\<rparr>"
    by (simp add: SaveToCache_def)
  show ?thesis
    using A B unfolding A' S by simp
qed

section \<open>Copying an image to the canvas\<close>

lemma int_of_size_t_small: "n < 2 ^ 31 \<Longrightarrow> int_of_size_t n = int n"
  by (simp add: int_of_size_t_def Let_def)

lemma copy_row_other_rows:
  assumes "int_of_size_t (size_t_add y (size_t_of_int offset_y)) \<noteq> row"
  shows "copy_row sc img offset_x offset_y cv y (col, row) = cv (col, row)"
proof -
  have "foldl (\<lambda>cv x.
              (let c = pixelColor img x y
               in if alphaQuantum c < 256
                  then SetPixel cv (int_of_size_t (size_t_add x (size_t_of_int offset_x)))
                         (int_of_size_t (size_t_add y (size_t_of_int offset_y)))
                         (sc (redQuantum c), sc (greenQuantum c), sc (blueQuantum c))
                  else cv))
       cv xs (col, row) = cv (col, row)" for xs
    using assms by (induction xs arbitrary: cv) (simp_all add: SetPixel_def Let_def)
  then show ?thesis by (simp add: copy_row_def)
qed

lemma copy_rows_above_limit:
  assumes "\<forall>y\<in>set ys. size_t_add y (size_t_of_int offset_y) < 22" and "22 \<le> row"
  shows "foldl (copy_row sc img offset_x offset_y) cv ys (col, row) = cv (col, row)"
  using assms(1)
proof (induction ys arbitrary: cv)
  case Nil
  show ?case by simp
next
  case (Cons y ys)
  then have "size_t_add y (size_t_of_int offset_y) < 22" by simp
  then have "int_of_size_t (size_t_add y (size_t_of_int offset_y)) \<noteq> row"
    using assms(2) by (simp add: int_of_size_t_small)
  then have "copy_row sc img offset_x offset_y cv y (col, row) = cv (col, row)"
    by (rule copy_row_other_rows)
  with Cons show ?case by simp
qed

lemma row_limit: "size_t_of_int (IMAGE_HEIGHT + IMAGE_Y) = 22"
  by (simp add: size_t_of_int_def IMAGE_HEIGHT_def IMAGE_Y_def)

text \<open>
  C10. \<open>CopyImageToCanvas\<close> of the fact-display variant leaves every canvas cell in a
  row \<open>\<ge> IMAGE_Y + IMAGE_HEIGHT = 22\<close> as it was, for every image, whatever its height,
  and for every offset (the render loops pass \<open>offset_y = IMAGE_Y\<close>).
\<close>

theorem CopyImageToCanvas_rows_below_untouched:
  "IMAGE_Y + IMAGE_HEIGHT \<le> row \<Longrightarrow>
   CopyImageToCanvas sc img cv offset_x offset_y (col, row) = cv (col, row)"
proof -
  assume "IMAGE_Y + IMAGE_HEIGHT \<le> row"
  then have r: "22 \<le> row" by (simp add: IMAGE_HEIGHT_def IMAGE_Y_def)
  have "\<forall>y\<in>set (takeWhile (\<lambda>y. size_t_add y (size_t_of_int offset_y) < 22) [0..<rows img]).
          size_t_add y (size_t_of_int offset_y) < 22"
    by (auto dest: set_takeWhileD)
  from copy_rows_above_limit[OF this r]
  show ?thesis by (simp add: CopyImageToCanvas_def row_limit)
qed

theorem CopyImageToCanvas_rows_below_untouched_witness:
  "IMAGE_Y + IMAGE_HEIGHT \<le> 22
   \<and> CopyImageToCanvas (\<lambda>q. q div 257)
        \<lparr>rows = 40, columns = 18,
         pixelColor = (\<lambda>x y. \<lparr>alphaQuantum = 0, redQuantum = 65535, greenQuantum = 0,
                                 blueQuantum = 0\<rparr>),
         animationDelay = 0\<rparr>
        (\<lambda>p. (0, 0, 0)) RIGHT_IMAGE_X IMAGE_Y (46, 22)
      = (0, 0, 0)"
proof -
  have h: "IMAGE_Y + IMAGE_HEIGHT \<le> 22" by (simp add: IMAGE_Y_def IMAGE_HEIGHT_def)
  from CopyImageToCanvas_rows_below_untouched[OF h] h show ?thesis by simp
qed

section \<open>The brightness check\<close>

lemma brightness_check_Some:
  assumes "fst (brightness_check I t s) = Some v"
  shows "now t - last_brightness_check s \<ge> I" and "v \<noteq> last_brightness s"
    and "v = (if IsDimHoursEST (dim_hour t) (dim_min t) then 10 else 100)"
    and "last_brightness_check (snd (brightness_check I t s)) = now t"
    and "last_brightness (snd (brightness_check I t s)) = v"
  using assms by (auto simp: brightness_check_def Let_def split: if_splits)

lemma brightness_check_None:
  assumes "fst (brightness_check I t s) = None"
  shows "last_brightness (snd (brightness_check I t s)) = last_brightness s"
    and "0 \<le> I \<Longrightarrow> last_brightness_check s \<le> last_brightness_check (snd (brightness_check I t s))"
  using assms by (auto simp: brightness_check_def Let_def split: if_splits)

lemma observe_fact_brightness:
  "last_brightness (observe_fact f c s) = last_brightness s"
  "last_brightness_check (observe_fact f c s) = last_brightness_check s"
  by (simp_all add: observe_fact_def)

lemma advance_scroll_brightness:
  "last_brightness (advance_scroll s) = last_brightness s"
  "last_brightness_check (advance_scroll s) = last_brightness_check s"
  by (simp_all add: advance_scroll_def Let_def)

lemma brightness_of_append: "brightness_of (xs @ ys) = brightness_of xs @ brightness_of ys"
  by (induction xs rule: brightness_of.induct) simp_all

lemma static_iteration_brightness:
  "brightness_of (fst (static_iteration f t s)) = applied (fst (brightness_check 1800 t s))"
  "last_brightness (snd (static_iteration f t s)) = last_brightness (snd (brightness_check 1800 t s))"
  "last_brightness_check (snd (static_iteration f t s))
     = last_brightness_check (snd (brightness_check 1800 t s))"
  by (simp_all add: static_iteration_def applied_def Let_def split_beta brightness_of_append
        observe_fact_brightness advance_scroll_brightness split: option.split)

lemma animated_iteration_brightness:
  "brightness_of (fst (animated_iteration L R f t s)) = applied (fst (brightness_check 60 t s))"
  "last_brightness (snd (animated_iteration L R f t s)) = last_brightness (snd (brightness_check 60 t s))"
  "last_brightness_check (snd (animated_iteration L R f t s))
     = last_brightness_check (snd (brightness_check 60 t s))"
  by (simp_all add: animated_iteration_def applied_def Let_def split_beta brightness_of_append
        observe_fact_brightness advance_scroll_brightness split: option.split)

lemma log_Cons:
  "brightness_log (t # ts) (fst (render_run it s (t # ts)))
     = map (\<lambda>b. (now t, b)) (brightness_of (fst (it t s)))
       @ brightness_log ts (fst (render_run it (snd (it t s)) ts))"
  by (simp add: split_beta)

lemma log_after_check:
  assumes "checks_brightness I it" and "0 \<le> I"
  shows "\<forall>p \<in> set (brightness_log ts (fst (render_run it s ts))).
           last_brightness_check s + I \<le> fst p"
proof (induction ts arbitrary: s)
  case Nil
  show ?case by simp
next
  case (Cons t ts)
  let ?s' = "snd (it t s)"
  from assms(1) have b: "brightness_of (fst (it t s)) = applied (fst (brightness_check I t s))"
    and c: "last_brightness_check ?s' = last_brightness_check (snd (brightness_check I t s))"
    by (simp_all add: checks_brightness_def)
  have mono: "last_brightness_check s \<le> last_brightness_check ?s'"
    using assms(2) unfolding c by (auto simp: brightness_check_def Let_def)
  have tail: "\<forall>p \<in> set (brightness_log ts (fst (render_run it ?s' ts))).
           last_brightness_check s + I \<le> fst p"
    using Cons.IH[of ?s'] mono by fastforce
  have head: "\<forall>p \<in> set (map (\<lambda>b. (now t, b)) (brightness_of (fst (it t s)))).
           last_brightness_check s + I \<le> fst p"
  proof (cases "fst (brightness_check I t s)")
    case None
    then show ?thesis by (simp add: b applied_def)
  next
    case (Some v)
    from brightness_check_Some(1)[OF this] show ?thesis by (simp add: b applied_def Some)
  qed
  show ?case unfolding log_Cons using head tail by auto
qed

lemma log_spaced:
  assumes "checks_brightness I it" and "0 \<le> I"
  shows "sorted_wrt (\<lambda>p q. I \<le> fst q - fst p) (brightness_log ts (fst (render_run it s ts)))"
proof (induction ts arbitrary: s)
  case Nil
  show ?case by simp
next
  case (Cons t ts)
  let ?s' = "snd (it t s)"
  let ?tail = "brightness_log ts (fst (render_run it ?s' ts))"
  from assms(1) have b: "brightness_of (fst (it t s)) = applied (fst (brightness_check I t s))"
    and c: "last_brightness_check ?s' = last_brightness_check (snd (brightness_check I t s))"
    by (simp_all add: checks_brightness_def)
  have tail: "sorted_wrt (\<lambda>p q. I \<le> fst q - fst p) ?tail" by (rule Cons.IH)
  show ?case
  proof (cases "fst (brightness_check I t s)")
    case None
    then show ?thesis unfolding log_Cons using tail by (simp add: b applied_def)
  next
    case (Some v)
    have "last_brightness_check ?s' = now t"
      unfolding c by (rule brightness_check_Some(4)[OF Some])
    with log_after_check[OF assms, of ts ?s']
    have "\<forall>p \<in> set ?tail. now t + I \<le> fst p" by simp
    then have "\<forall>p \<in> set ?tail. I \<le> fst p - now t" by auto
    then show ?thesis unfolding log_Cons using tail by (simp add: b applied_def Some)
  qed
qed

lemma log_alternates:
  assumes "checks_brightness I it"
  shows "distinct_adj (last_brightness s # map snd (brightness_log ts (fst (render_run it s ts))))"
proof (induction ts arbitrary: s)
  case Nil
  show ?case by simp
next
  case (Cons t ts)
  let ?s' = "snd (it t s)"
  let ?tail = "brightness_log ts (fst (render_run it ?s' ts))"
  from assms(1) have b: "brightness_of (fst (it t s)) = applied (fst (brightness_check I t s))"
    and l: "last_brightness ?s' = last_brightness (snd (brightness_check I t s))"
    by (simp_all add: checks_brightness_def)
  have tail: "distinct_adj (last_brightness ?s' # map snd ?tail)" by (rule Cons.IH)
  show ?case
  proof (cases "fst (brightness_check I t s)")
    case None
    have "last_brightness ?s' = last_brightness s"
      unfolding l by (rule brightness_check_None(1)[OF None])
    with tail show ?thesis unfolding log_Cons by (simp add: b applied_def None)
  next
    case (Some v)
    have "last_brightness ?s' = v" unfolding l by (rule brightness_check_Some(5)[OF Some])
    moreover have "v \<noteq> last_brightness s" by (rule brightness_check_Some(2)[OF Some])
    ultimately show ?thesis
      unfolding log_Cons using tail by (simp add: b applied_def Some)
  qed
qed

lemma static_checks: "checks_brightness 1800 (static_iteration f)"
  by (simp add: checks_brightness_def static_iteration_brightness)

lemma animated_checks: "checks_brightness 60 (animated_iteration L R f)"
  by (simp add: checks_brightness_def animated_iteration_brightness)

lemma brightness_check_applied:
  "applied (fst (brightness_check I t s))
     = (if I \<le> now t - last_brightness_check s
           \<and> (if IsDimHoursEST (dim_hour t) (dim_min t) then 10 else 100) \<noteq> last_brightness s
        then [if IsDimHoursEST (dim_hour t) (dim_min t) then 10 else 100] else [])"
  by (simp add: brightness_check_def applied_def Let_def)

lemma static_example:
  "brightness_log
        [\<lparr>now = 1000, dim_hour = 12, dim_min = 0, time_str = ''12:00'', shared_fact = ''a''\<rparr>,
         \<lparr>now = 2000, dim_hour = 23, dim_min = 45, time_str = ''12:00'', shared_fact = ''a''\<rparr>,
         \<lparr>now = 3000, dim_hour = 12, dim_min = 0, time_str = ''12:00'', shared_fact = ''a''\<rparr>,
         \<lparr>now = 4000, dim_hour = 12, dim_min = 0, time_str = ''12:01'', shared_fact = ''a''\<rparr>]
        (fst (ShowDualStaticImagesWithClock (\<lambda>c. 6)
          [\<lparr>now = 1000, dim_hour = 12, dim_min = 0, time_str = ''12:00'', shared_fact = ''a''\<rparr>,
           \<lparr>now = 2000, dim_hour = 23, dim_min = 45, time_str = ''12:00'', shared_fact = ''a''\<rparr>,
           \<lparr>now = 3000, dim_hour = 12, dim_min = 0, time_str = ''12:00'', shared_fact = ''a''\<rparr>,
           \<lparr>now = 4000, dim_hour = 12, dim_min = 0, time_str = ''12:01'', shared_fact = ''a''\<rparr>]))
     = [(2000, 10), (4000, 100)]"
  unfolding ShowDualStaticImagesWithClock_def log_Cons
  by (simp add: static_iteration_def brightness_check_def observe_fact_def advance_scroll_def
        GetStringWidth_def initial_render_state_def IsDimHoursEST_def MATRIX_WIDTH_def Let_def)

text \<open>
  C7. In both render loops an iteration calls \<open>SetBrightness\<close> at most once, and exactly
  when the re-check interval (1800 s in the static loop, 60 s in the animated loop) has
  passed since the last check and the computed value differs from \<open>last_brightness\<close>,
  the value applied last. Over a run from any state and for any sequence of clock
  readings and dim decisions, two calls are at least one interval apart, and each call
  gives a value different from the one before.
\<close>

theorem SetBrightness_rate_limited:
  "brightness_of (fst (static_iteration fact_font t s))
     = (if 1800 \<le> now t - last_brightness_check s
           \<and> (if IsDimHoursEST (dim_hour t) (dim_min t) then 10 else 100) \<noteq> last_brightness s
        then [if IsDimHoursEST (dim_hour t) (dim_min t) then 10 else 100] else [])
   \<and> brightness_of (fst (animated_iteration left_images right_images fact_font t s))
     = (if 60 \<le> now t - last_brightness_check s
           \<and> (if IsDimHoursEST (dim_hour t) (dim_min t) then 10 else 100) \<noteq> last_brightness s
        then [if IsDimHoursEST (dim_hour t) (dim_min t) then 10 else 100] else [])
   \<and> sorted_wrt (\<lambda>p q. 1800 \<le> fst q - fst p)
        (brightness_log ts (fst (render_run (static_iteration fact_font) s ts)))
   \<and> distinct_adj (last_brightness s
        # map snd (brightness_log ts (fst (render_run (static_iteration fact_font) s ts))))
   \<and> sorted_wrt (\<lambda>p q. 60 \<le> fst q - fst p)
        (brightness_log ts
           (fst (render_run (animated_iteration left_images right_images fact_font) s ts)))
   \<and> distinct_adj (last_brightness s
        # map snd (brightness_log ts
            (fst (render_run (animated_iteration left_images right_images fact_font) s ts))))"
proof (intro conjI)
  show "brightness_of (fst (static_iteration fact_font t s))
     = (if 1800 \<le> now t - last_brightness_check s
           \<and> (if IsDimHoursEST (dim_hour t) (dim_min t) then 10 else 100) \<noteq> last_brightness s
        then [if IsDimHoursEST (dim_hour t) (dim_min t) then 10 else 100] else [])"
    unfolding static_iteration_brightness(1) by (rule brightness_check_applied)
  show "brightness_of (fst (animated_iteration left_images right_images fact_font t s))
     = (if 60 \<le> now t - last_brightness_check s
           \<and> (if IsDimHoursEST (dim_hour t) (dim_min t) then 10 else 100) \<noteq> last_brightness s
        then [if IsDimHoursEST (dim_hour t) (dim_min t) then 10 else 100] else [])"
    unfolding animated_iteration_brightness(1) by (rule brightness_check_applied)
  show "sorted_wrt (\<lambda>p q. 1800 \<le> fst q - fst p)
        (brightness_log ts (fst (render_run (static_iteration fact_font) s ts)))"
    by (rule log_spaced[OF static_checks]) simp
  show "distinct_adj (last_brightness s
        # map snd (brightness_log ts (fst (render_run (static_iteration fact_font) s ts))))"
    by (rule log_alternates[OF static_checks])
  show "sorted_wrt (\<lambda>p q. 60 \<le> fst q - fst p)
        (brightness_log ts
           (fst (render_run (animated_iteration left_images right_images fact_font) s ts)))"
    by (rule log_spaced[OF animated_checks]) simp
  show "distinct_adj (last_brightness s
        # map snd (brightness_log ts
            (fst (render_run (animated_iteration left_images right_images fact_font) s ts))))"
    by (rule log_alternates[OF animated_checks])
qed

theorem SetBrightness_rate_limited_witness:
  "brightness_log
        [\<lparr>now = 1000, dim_hour = 12, dim_min = 0, time_str = ''12:00'', shared_fact = ''a''\<rparr>,
         \<lparr>now = 2000, dim_hour = 23, dim_min = 45, time_str = ''12:00'', shared_fact = ''a''\<rparr>,
         \<lparr>now = 3000, dim_hour = 12, dim_min = 0, time_str = ''12:00'', shared_fact = ''a''\<rparr>,
         \<lparr>now = 4000, dim_hour = 12, dim_min = 0, time_str = ''12:01'', shared_fact = ''a''\<rparr>]
        (fst (ShowDualStaticImagesWithClock (\<lambda>c. 6)
          [\<lparr>now = 1000, dim_hour = 12, dim_min = 0, time_str = ''12:00'', shared_fact = ''a''\<rparr>,
           \<lparr>now = 2000, dim_hour = 23, dim_min = 45, time_str = ''12:00'', shared_fact = ''a''\<rparr>,
           \<lparr>now = 3000, dim_hour = 12, dim_min = 0, time_str = ''12:00'', shared_fact = ''a''\<rparr>,
           \<lparr>now = 4000, dim_hour = 12, dim_min = 0, time_str = ''12:01'', shared_fact = ''a''\<rparr>]))
     = [(2000, 10), (4000, 100)]
   \<and> sorted_wrt (\<lambda>p q. 1800 \<le> fst q - fst p) [(2000 :: int, 10 :: int), (4000, 100)]"
proof -
  let ?ticks = "[\<lparr>now = 1000, dim_hour = 12, dim_min = 0, time_str = ''12:00'', shared_fact = ''a''\<rparr>,
         \<lparr>now = 2000, dim_hour = 23, dim_min = 45, time_str = ''12:00'', shared_fact = ''a''\<rparr>,
         \<lparr>now = 3000, dim_hour = 12, dim_min = 0, time_str = ''12:00'', shared_fact = ''a''\<rparr>,
         \<lparr>now = 4000, dim_hour = 12, dim_min = 0, time_str = ''12:01'', shared_fact = ''a''\<rparr>]"
  have "sorted_wrt (\<lambda>p q. 1800 \<le> fst q - fst p)
          (brightness_log ?ticks
             (fst (render_run (static_iteration (\<lambda>c. 6)) initial_render_state ?ticks)))"
    using SetBrightness_rate_limited[of "\<lambda>c. 6" _ initial_render_state _ _ ?ticks] by blast
  then show ?thesis
    using static_example by (simp only: ShowDualStaticImagesWithClock_def simp_thms)
qed

section \<open>The scroll offset\<close>

lemma brightness_check_scroll:
  "scroll_offset (snd (brightness_check I t s)) = scroll_offset s"
  "fact_width (snd (brightness_check I t s)) = fact_width s"
  "last_fact_text (snd (brightness_check I t s)) = last_fact_text s"
  by (simp_all add: brightness_check_def Let_def)

lemma static_iteration_scroll:
  "scroll_offset (snd (static_iteration f t s))
     = scroll_offset (advance_scroll (observe_fact f (shared_fact t) s))"
  "fact_width (snd (static_iteration f t s)) = fact_width (observe_fact f (shared_fact t) s)"
  "last_fact_text (snd (static_iteration f t s)) = shared_fact t"
  by (simp_all add: static_iteration_def split_beta Let_def observe_fact_def advance_scroll_def
        brightness_check_scroll)

lemma animated_iteration_scroll:
  "scroll_offset (snd (animated_iteration L R f t s))
     = scroll_offset (advance_scroll (observe_fact f (shared_fact t) s))"
  "fact_width (snd (animated_iteration L R f t s)) = fact_width (observe_fact f (shared_fact t) s)"
  "last_fact_text (snd (animated_iteration L R f t s)) = shared_fact t"
  by (simp_all add: animated_iteration_def split_beta Let_def observe_fact_def advance_scroll_def
        brightness_check_scroll)

lemma static_iteration_draws:
  "DrawFactText (shared_fact t) (scroll_offset (observe_fact f (shared_fact t) s))
     \<in> set (fst (static_iteration f t s))"
  by (simp add: static_iteration_def split_beta Let_def observe_fact_def brightness_check_scroll)

text \<open>
  C4. In one iteration the offset goes down by 1 and is set back to \<open>MATRIX_WIDTH\<close>
  (64) exactly when the decremented value is below \<open>- fact_width\<close>. When the fact text
  read in the iteration differs from \<open>last_fact_text\<close>, the width is recomputed from
  the new text and the text is drawn at offset 64 whatever the offset was, so that the
  iteration ends with the offset at 63 (or back at 64, if 63 is already below the
  negated new width). Both loops update the offset and the width in the same way.
\<close>

theorem scroll_offset_iteration:
  "scroll_offset (advance_scroll s)
     = (if scroll_offset s - 1 < - fact_width s then MATRIX_WIDTH else scroll_offset s - 1)
   \<and> observe_fact fact_font txt s
     = (if txt \<noteq> last_fact_text s
        then s\<lparr>last_fact_text := txt, fact_width := GetStringWidth fact_font txt,
               scroll_offset := MATRIX_WIDTH\<rparr>
        else s)
   \<and> scroll_offset (snd (static_iteration fact_font t s))
     = (if shared_fact t \<noteq> last_fact_text s
        then (if MATRIX_WIDTH - 1 < - GetStringWidth fact_font (shared_fact t)
              then MATRIX_WIDTH else MATRIX_WIDTH - 1)
        else (if scroll_offset s - 1 < - fact_width s then MATRIX_WIDTH else scroll_offset s - 1))
   \<and> fact_width (snd (static_iteration fact_font t s))
     = (if shared_fact t \<noteq> last_fact_text s then GetStringWidth fact_font (shared_fact t)
        else fact_width s)
   \<and> last_fact_text (snd (static_iteration fact_font t s)) = shared_fact t
   \<and> DrawFactText (shared_fact t)
        (if shared_fact t \<noteq> last_fact_text s then MATRIX_WIDTH else scroll_offset s)
       \<in> set (fst (static_iteration fact_font t s))
   \<and> scroll_offset (snd (animated_iteration left_images right_images fact_font t s))
     = scroll_offset (snd (static_iteration fact_font t s))
   \<and> fact_width (snd (animated_iteration left_images right_images fact_font t s))
     = fact_width (snd (static_iteration fact_font t s))"
proof (intro conjI)
  show "scroll_offset (advance_scroll s)
     = (if scroll_offset s - 1 < - fact_width s then MATRIX_WIDTH else scroll_offset s - 1)"
    by (simp add: advance_scroll_def Let_def)
  show "observe_fact fact_font txt s
     = (if txt \<noteq> last_fact_text s
        then s\<lparr>last_fact_text := txt, fact_width := GetStringWidth fact_font txt,
               scroll_offset := MATRIX_WIDTH\<rparr>
        else s)"
    by (simp add: observe_fact_def)
  show "scroll_offset (snd (static_iteration fact_font t s))
     = (if shared_fact t \<noteq> last_fact_text s
        then (if MATRIX_WIDTH - 1 < - GetStringWidth fact_font (shared_fact t)
              then MATRIX_WIDTH else MATRIX_WIDTH - 1)
        else (if scroll_offset s - 1 < - fact_width s then MATRIX_WIDTH else scroll_offset s - 1))"
    by (simp add: static_iteration_scroll advance_scroll_def observe_fact_def Let_def)
  show "fact_width (snd (static_iteration fact_font t s))
     = (if shared_fact t \<noteq> last_fact_text s then GetStringWidth fact_font (shared_fact t)
        else fact_width s)"
    by (simp add: static_iteration_scroll observe_fact_def)
  show "last_fact_text (snd (static_iteration fact_font t s)) = shared_fact t"
    by (simp add: static_iteration_scroll)
  show "DrawFactText (shared_fact t)
        (if shared_fact t \<noteq> last_fact_text s then MATRIX_WIDTH else scroll_offset s)
       \<in> set (fst (static_iteration fact_font t s))"
    using static_iteration_draws[of t fact_font s]
    by (cases "shared_fact t = last_fact_text s") (simp_all add: observe_fact_def)
  show "scroll_offset (snd (animated_iteration left_images right_images fact_font t s))
     = scroll_offset (snd (static_iteration fact_font t s))"
    by (simp add: static_iteration_scroll animated_iteration_scroll)
  show "fact_width (snd (animated_iteration left_images right_images fact_font t s))
     = fact_width (snd (static_iteration fact_font t s))"
    by (simp add: static_iteration_scroll animated_iteration_scroll)
qed

theorem scroll_offset_iteration_witness:
  "scroll_offset (snd (static_iteration (\<lambda>c. 6)
       \<lparr>now = 0, dim_hour = 12, dim_min = 0, time_str = ''12:00'', shared_fact = ''ab''\<rparr>
       (initial_render_state\<lparr>scroll_offset := - 12, last_fact_text := ''ab'', fact_width := 12\<rparr>)))
     = 64
   \<and> scroll_offset (snd (static_iteration (\<lambda>c. 6)
       \<lparr>now = 0, dim_hour = 12, dim_min = 0, time_str = ''12:00'', shared_fact = ''ab''\<rparr>
       (initial_render_state\<lparr>scroll_offset := 5, last_fact_text := ''ab'', fact_width := 12\<rparr>)))
     = 4
   \<and> scroll_offset (snd (static_iteration (\<lambda>c. 6)
       \<lparr>now = 0, dim_hour = 12, dim_min = 0, time_str = ''12:00'', shared_fact = ''abc''\<rparr>
       (initial_render_state\<lparr>scroll_offset := 5, last_fact_text := ''ab'', fact_width := 12\<rparr>)))
     = 63
   \<and> fact_width (snd (static_iteration (\<lambda>c. 6)
       \<lparr>now = 0, dim_hour = 12, dim_min = 0, time_str = ''12:00'', shared_fact = ''abc''\<rparr>
       (initial_render_state\<lparr>scroll_offset := 5, last_fact_text := ''ab'', fact_width := 12\<rparr>)))
     = 18"
  using scroll_offset_iteration[of
      "initial_render_state\<lparr>scroll_offset := - 12, last_fact_text := ''ab'', fact_width := 12\<rparr>"
      "\<lambda>c. 6" "''ab''"
      "\<lparr>now = 0, dim_hour = 12, dim_min = 0, time_str = ''12:00'', shared_fact = ''ab''\<rparr>"]
    scroll_offset_iteration[of
      "initial_render_state\<lparr>scroll_offset := 5, last_fact_text := ''ab'', fact_width := 12\<rparr>"
      "\<lambda>c. 6" "''ab''"
      "\<lparr>now = 0, dim_hour = 12, dim_min = 0, time_str = ''12:00'', shared_fact = ''ab''\<rparr>"]
    scroll_offset_iteration[of
      "initial_render_state\<lparr>scroll_offset := 5, last_fact_text := ''ab'', fact_width := 12\<rparr>"
      "\<lambda>c. 6" "''ab''"
      "\<lparr>now = 0, dim_hour = 12, dim_min = 0, time_str = ''12:00'', shared_fact = ''abc''\<rparr>"]
  by (simp add: initial_render_state_def MATRIX_WIDTH_def GetStringWidth_def)

section \<open>The frame delay\<close>




section \<open>The frame counter\<close>






















section \<open>Font loading\<close>




end
